theory Spec2Isabelle
  imports Complex_Main "HOL-Library.AList" "HOL-Library.Char_ord" "HOL-Library.List_Lexorder"
begin

section \<open>The expense screen of the student expense tracker\<close>

text \<open>
  A shallow embedding of \<^verbatim>\<open>src/ExpenseScreen.js\<close>: the filter over the loaded rows, the
  totals, the chart data, and the two handlers that write to the table (add and
  edit-save). The JavaScript built-ins the component calls (\<^verbatim>\<open>String.prototype.trim\<close>,
  \<^verbatim>\<open>parseFloat\<close>, \<^verbatim>\<open>Date\<close>, property access on a plain object, \<^verbatim>\<open>Object.entries\<close>)
  are modelled after ECMA-262, since the claims depend on what they do.

  Conventions of the model:
  \<^item> a JavaScript string is a \<^typ>\<open>string\<close>; each \<^typ>\<open>char\<close> stands for one code unit
    below 256;
  \<^item> a JavaScript number is a \<open>jsnum\<close>: \<open>NaN\<close>, the two infinities, or a finite
    double, held as the \<^typ>\<open>real\<close> it denotes; every operation that makes a number
    rounds its exact result to the nearest double, as IEEE 754 does (the two zeros are
    held as one value: no operation of the component tells them apart);
  \<^item> a time value is an \<^typ>\<open>int\<close>, milliseconds since the epoch (the range of time
    values is not clipped);
  \<^item> the time zone with its daylight saving rules, and what \<^verbatim>\<open>Date.parse\<close> does outside
    the one format the component writes, are fields of the record \<open>engine\<close>; a
    theorem that does not name an engine holds for all of them.
\<close>

subsection \<open>Strings\<close>

text \<open>
  \<^verbatim>\<open>trim\<close> removes white space and line terminators from both ends. Among the code
  units below 256 these are TAB, LF, VT, FF, CR, SP and NBSP.
\<close>

definition WhiteSpace :: "char \<Rightarrow> bool" where
  "WhiteSpace c \<longleftrightarrow> (of_char c :: nat) \<in> {9, 10, 11, 12, 13, 32, 160}"

definition trimStart :: "string \<Rightarrow> string" where
  "trimStart s = dropWhile WhiteSpace s"

definition trim :: "string \<Rightarrow> string" where
  "trim s = rev (dropWhile WhiteSpace (rev (dropWhile WhiteSpace s)))"

definition DecimalDigit :: "char \<Rightarrow> bool" where
  "DecimalDigit c \<longleftrightarrow> 48 \<le> (of_char c :: nat) \<and> (of_char c :: nat) \<le> 57"

definition digit_value :: "char \<Rightarrow> int" where
  "digit_value c = of_char c - 48"

text \<open>The mathematical value of a run of decimal digits, most significant first.\<close>

definition MV :: "string \<Rightarrow> int" where
  "MV ds = foldl (\<lambda>n c. 10 * n + digit_value c) 0 ds"

text \<open>A natural number in decimal, padded with zeros on the left to a width of \<open>w\<close>.\<close>

fun pad :: "nat \<Rightarrow> nat \<Rightarrow> string" where
  "pad 0 n = []"
| "pad (Suc w) n = pad w (n div 10) @ [char_of (48 + n mod 10)]"

subsection \<open>Numbers\<close>

datatype jsnum = NaN | NegInfinity | Finite real | PosInfinity

text \<open>
  The number of binary digits of a positive integer, and a power with an integer
  exponent, by repeated squaring.
\<close>

function bit_length :: "int \<Rightarrow> int" where
  "bit_length n = (if n \<le> 0 then 0 else 1 + bit_length (n div 2))"
  by pat_completeness auto
termination
  by (relation "measure nat") auto

declare bit_length.simps [simp del]

function pow :: "real \<Rightarrow> int \<Rightarrow> real" where
  "pow b k =
     (if k < 0 then 1 / pow b (- k)
      else if k = 0 then 1
      else if even k then pow b (k div 2) * pow b (k div 2)
      else b * pow b (k - 1))"
  by pat_completeness auto
termination
  by (relation "measure (\<lambda>(b, k). if k < 0 then nat (1 - k) else nat k)") auto

declare pow.simps [simp del]

text \<open>
  The Number value for a real \<open>x\<close> (ECMA-262 writes it with a blackboard F): the double
  nearest to \<open>x\<close>, the one with an even significand when two are equally near, and an
  infinity when that rounding leaves the range of doubles. For \<open>a > 0\<close>, \<open>exponent a\<close>
  is the \<open>e\<close> with \<open>2\<^sup>e \<le> a < 2\<^sup>e\<^sup>+\<^sup>1\<close>; the doubles from \<open>2\<^sup>e\<close> to \<open>2\<^sup>e\<^sup>+\<^sup>1\<close> are the
  multiples of \<open>2\<^sup>e\<^sup>-\<^sup>5\<^sup>2\<close>, and below \<open>2\<^sup>-\<^sup>1\<^sup>0\<^sup>2\<^sup>2\<close> they are the multiples of \<open>2\<^sup>-\<^sup>1\<^sup>0\<^sup>7\<^sup>4\<close>.
  The largest double has \<open>e = 1023\<close> and the significand \<open>2\<^sup>5\<^sup>3 - 1\<close>.
\<close>

definition exponent :: "real \<Rightarrow> int" where
  "exponent a =
     (if 1 \<le> a then bit_length \<lfloor>a\<rfloor> - 1 else - bit_length (\<lceil>1 / a\<rceil> - 1))"

definition round_half_even :: "real \<Rightarrow> int" where
  "round_half_even y =
     (let f = \<lfloor>y\<rfloor>; d = y - of_int f
      in if d < 1 / 2 then f else if 1 / 2 < d then f + 1 else if even f then f else f + 1)"

definition Number_value :: "real \<Rightarrow> jsnum" where
  "Number_value x =
     (if x = 0 then Finite 0
      else
        (let a = \<bar>x\<bar>;
             e = max (exponent a) (- 1022);
             q = pow 2 (e - 52);
             m = round_half_even (a / q)
         in if 1024 \<le> e \<or> (e = 1023 \<and> 9007199254740992 \<le> m)
            then (if x < 0 then NegInfinity else PosInfinity)
            else Finite (if x < 0 then - (of_int m * q) else of_int m * q)))"

text \<open>
  The operator \<^verbatim>\<open>+\<close> on numbers: the exact sum of two finite numbers, rounded. It is
  commutative and neither associative nor exact.
\<close>

instantiation jsnum :: "{zero, plus}"
begin

definition zero_jsnum :: jsnum where
  "zero_jsnum = Finite 0"

fun plus_jsnum :: "jsnum \<Rightarrow> jsnum \<Rightarrow> jsnum" where
  "plus_jsnum NaN y = NaN"
| "plus_jsnum x NaN = NaN"
| "plus_jsnum (Finite a) (Finite b) = Number_value (a + b)"
| "plus_jsnum (Finite a) y = y"
| "plus_jsnum x (Finite b) = x"
| "plus_jsnum PosInfinity PosInfinity = PosInfinity"
| "plus_jsnum NegInfinity NegInfinity = NegInfinity"
| "plus_jsnum PosInfinity NegInfinity = NaN"
| "plus_jsnum NegInfinity PosInfinity = NaN"

instance ..

end

definition isNaN :: "jsnum \<Rightarrow> bool" where
  "isNaN x \<longleftrightarrow> x = NaN"

text \<open>The relational operators \<^verbatim>\<open><\<close> and \<^verbatim>\<open><=\<close> on numbers: false as soon as one side is NaN.\<close>

fun js_lt :: "jsnum \<Rightarrow> jsnum \<Rightarrow> bool" where
  "js_lt NaN y = False"
| "js_lt x NaN = False"
| "js_lt (Finite a) (Finite b) = (a < b)"
| "js_lt x NegInfinity = False"
| "js_lt NegInfinity y = True"
| "js_lt PosInfinity y = False"
| "js_lt x PosInfinity = True"

definition js_le :: "jsnum \<Rightarrow> jsnum \<Rightarrow> bool" where
  "js_le x y \<longleftrightarrow> \<not> isNaN x \<and> \<not> isNaN y \<and> \<not> js_lt y x"

text \<open>\<^verbatim>\<open>Number(v)\<close> of a value that is a number already.\<close>

definition Number :: "jsnum \<Rightarrow> jsnum" where
  "Number x = x"

text \<open>
  \<^verbatim>\<open>parseFloat\<close>: skip leading white space, then take the longest prefix that is a
  \<open>StrDecimalLiteral\<close> (an optional sign, then \<^verbatim>\<open>Infinity\<close> or decimal digits with an
  optional fraction and an optional exponent); NaN if there is no such prefix. An
  exponent indicator counts only when at least one digit follows it. The result is the
  Number value for the mathematical value of the literal: \<^verbatim>\<open>1e-400\<close> is 0 and \<^verbatim>\<open>1e400\<close>
  is Infinity. (ECMA-262 lets an engine drop the digits after the twentieth
  significant one before it rounds; the model rounds the exact value, as the engines
  do.)
\<close>

definition ExponentPart :: "string \<Rightarrow> int" where
  "ExponentPart s =
     (case s of
        [] \<Rightarrow> 0
      | c # cs \<Rightarrow>
          if c = CHR ''e'' \<or> c = CHR ''E'' then
            (case cs of
               [] \<Rightarrow> 0
             | d # ds \<Rightarrow>
                 if d = CHR ''-'' then - MV (takeWhile DecimalDigit ds)
                 else if d = CHR ''+'' then MV (takeWhile DecimalDigit ds)
                 else MV (takeWhile DecimalDigit cs))
          else 0)"

definition scale10 :: "real \<Rightarrow> int \<Rightarrow> real" where
  "scale10 x e = x * pow 10 e"

definition StrUnsignedDecimalLiteral :: "string \<Rightarrow> real option" where
  "StrUnsignedDecimalLiteral s =
     (let intPart = takeWhile DecimalDigit s;
          rest = dropWhile DecimalDigit s;
          hasDot = (rest \<noteq> [] \<and> hd rest = CHR ''.'');
          fracPart = (if hasDot then takeWhile DecimalDigit (tl rest) else []);
          afterFrac = (if hasDot then dropWhile DecimalDigit (tl rest) else rest)
      in if intPart = [] \<and> fracPart = [] then None
         else Some (scale10 (of_int (MV (intPart @ fracPart)))
                      (ExponentPart afterFrac - int (length fracPart))))"

definition parseFloat :: "string \<Rightarrow> jsnum" where
  "parseFloat inputString =
     (let trimmedString = trimStart inputString;
          negative = (trimmedString \<noteq> [] \<and> hd trimmedString = CHR ''-'');
          signed = (trimmedString \<noteq> [] \<and> hd trimmedString \<in> {CHR ''-'', CHR ''+''});
          unsigned = (if signed then tl trimmedString else trimmedString)
      in if take 8 unsigned = ''Infinity'' then (if negative then NegInfinity else PosInfinity)
         else (case StrUnsignedDecimalLiteral unsigned of
                 None \<Rightarrow> NaN
               | Some v \<Rightarrow> Number_value (if negative then - v else v)))"

subsection \<open>What the engine leaves open\<close>

text \<open>
  \<open>LocalTZA t isUTC\<close> is the offset of local time from UTC in milliseconds, as ECMA-262
  has it: at the time value \<open>t\<close> when \<open>isUTC\<close> holds, and at the local time \<open>t\<close>
  otherwise; it changes with \<open>t\<close> where the zone has daylight saving time.
  \<open>legacy_parse\<close> is what \<^verbatim>\<open>Date.parse\<close> returns (\<open>None\<close> for NaN) on a string that is not a
  calendar date written \<^verbatim>\<open>YYYY-MM-DD\<close>.
\<close>

record engine =
  LocalTZA :: "int \<Rightarrow> bool \<Rightarrow> int"
  legacy_parse :: "string \<Rightarrow> int option"

subsection \<open>Dates\<close>

text \<open>The day and year arithmetic of ECMA-262, section "Time Values and Time Range".\<close>

definition msPerDay :: int where
  "msPerDay = 86400000"

definition Day :: "int \<Rightarrow> int" where
  "Day t = t div msPerDay"

definition TimeWithinDay :: "int \<Rightarrow> int" where
  "TimeWithinDay t = t mod msPerDay"

definition DaysInYear :: "int \<Rightarrow> int" where
  "DaysInYear y =
     (if y mod 4 \<noteq> 0 then 365 else if y mod 100 \<noteq> 0 then 366
      else if y mod 400 \<noteq> 0 then 365 else 366)"

definition DayFromYear :: "int \<Rightarrow> int" where
  "DayFromYear y =
     365 * (y - 1970) + (y - 1969) div 4 - (y - 1901) div 100 + (y - 1601) div 400"

text \<open>
  The largest year whose first day is not after \<open>t\<close>: the estimate from the mean
  length of a year is off by at most one.
\<close>

definition YearFromTime :: "int \<Rightarrow> int" where
  "YearFromTime t =
     (let d = Day t; y = 1970 + (d * 400) div 146097
      in if DayFromYear (y + 1) \<le> d then y + 1
         else if DayFromYear y \<le> d then y else y - 1)"

definition DayWithinYear :: "int \<Rightarrow> int" where
  "DayWithinYear t = Day t - DayFromYear (YearFromTime t)"

definition InLeapYear :: "int \<Rightarrow> int" where
  "InLeapYear t = (if DaysInYear (YearFromTime t) = 366 then 1 else 0)"

definition MonthFromTime :: "int \<Rightarrow> int" where
  "MonthFromTime t =
     (let d = DayWithinYear t; l = InLeapYear t
      in if d < 31 then 0 else if d < 59 + l then 1 else if d < 90 + l then 2
         else if d < 120 + l then 3 else if d < 151 + l then 4 else if d < 181 + l then 5
         else if d < 212 + l then 6 else if d < 243 + l then 7 else if d < 273 + l then 8
         else if d < 304 + l then 9 else if d < 334 + l then 10 else 11)"

definition DateFromTime :: "int \<Rightarrow> int" where
  "DateFromTime t =
     (let d = DayWithinYear t; l = InLeapYear t; m = MonthFromTime t
      in if m = 0 then d + 1 else if m = 1 then d - 30 else if m = 2 then d - 58 - l
         else if m = 3 then d - 89 - l else if m = 4 then d - 119 - l
         else if m = 5 then d - 150 - l else if m = 6 then d - 180 - l
         else if m = 7 then d - 211 - l else if m = 8 then d - 242 - l
         else if m = 9 then d - 272 - l else if m = 10 then d - 303 - l
         else d - 333 - l)"

definition WeekDay :: "int \<Rightarrow> int" where
  "WeekDay t = (Day t + 4) mod 7"

definition HourFromTime :: "int \<Rightarrow> int" where
  "HourFromTime t = (t div 3600000) mod 24"

definition MinFromTime :: "int \<Rightarrow> int" where
  "MinFromTime t = (t div 60000) mod 60"

definition SecFromTime :: "int \<Rightarrow> int" where
  "SecFromTime t = (t div 1000) mod 60"

definition msFromTime :: "int \<Rightarrow> int" where
  "msFromTime t = t mod 1000"

text \<open>The day number, within its year, of the first day of month \<open>mn\<close> (0 to 11).\<close>

definition MonthStart :: "int \<Rightarrow> int \<Rightarrow> int" where
  "MonthStart y mn =
     (let l = (if DaysInYear y = 366 then 1 else 0)
      in [0, 31, 59 + l, 90 + l, 120 + l, 151 + l, 181 + l, 212 + l, 243 + l, 273 + l,
          304 + l, 334 + l] ! nat mn)"

definition MakeDay :: "int \<Rightarrow> int \<Rightarrow> int \<Rightarrow> int" where
  "MakeDay year month date =
     (let ym = year + month div 12; mn = month mod 12
      in DayFromYear ym + MonthStart ym mn + date - 1)"

definition MakeDate :: "int \<Rightarrow> int \<Rightarrow> int" where
  "MakeDate day time = day * msPerDay + time"

definition LocalTime :: "engine \<Rightarrow> int \<Rightarrow> int" where
  "LocalTime eng t = t + LocalTZA eng t True"

definition UTC :: "engine \<Rightarrow> int \<Rightarrow> int" where
  "UTC eng t = t - LocalTZA eng t False"

text \<open>\<^verbatim>\<open>new Date(year, month, date)\<close>: local midnight of that day, as a time value.\<close>

definition Date_ymd :: "engine \<Rightarrow> int \<Rightarrow> int \<Rightarrow> int \<Rightarrow> int" where
  "Date_ymd eng year month date =
     (let yr = (if 0 \<le> year \<and> year \<le> 99 then 1900 + year else year)
      in UTC eng (MakeDate (MakeDay yr month date) 0))"

definition getFullYear :: "engine \<Rightarrow> int \<Rightarrow> int" where
  "getFullYear eng t = YearFromTime (LocalTime eng t)"

definition getMonth :: "engine \<Rightarrow> int \<Rightarrow> int" where
  "getMonth eng t = MonthFromTime (LocalTime eng t)"

definition getDate :: "engine \<Rightarrow> int \<Rightarrow> int" where
  "getDate eng t = DateFromTime (LocalTime eng t)"

definition getDay :: "engine \<Rightarrow> int \<Rightarrow> int" where
  "getDay eng t = WeekDay (LocalTime eng t)"

definition setDate :: "engine \<Rightarrow> int \<Rightarrow> int \<Rightarrow> int" where
  "setDate eng t dt =
     (let lt = LocalTime eng t
      in UTC eng (MakeDate (MakeDay (YearFromTime lt) (MonthFromTime lt) dt) (TimeWithinDay lt)))"

text \<open>
  \<^verbatim>\<open>toISOString\<close>: the UTC date and time, the year with four digits from 0 to 9999 and
  with a sign and six digits otherwise.
\<close>

definition toISOString :: "int \<Rightarrow> string" where
  "toISOString t =
     (let y = YearFromTime t
      in (if 0 \<le> y \<and> y \<le> 9999 then pad 4 (nat y)
          else (if y < 0 then ''-'' else ''+'') @ pad 6 (nat \<bar>y\<bar>))
         @ ''-'' @ pad 2 (nat (MonthFromTime t + 1)) @ ''-'' @ pad 2 (nat (DateFromTime t))
         @ ''T'' @ pad 2 (nat (HourFromTime t)) @ '':'' @ pad 2 (nat (MinFromTime t))
         @ '':'' @ pad 2 (nat (SecFromTime t)) @ ''.'' @ pad 3 (nat (msFromTime t)) @ ''Z'')"

text \<open>
  \<^verbatim>\<open>new Date(string)\<close>: a calendar date written \<^verbatim>\<open>YYYY-MM-DD\<close> is midnight UTC of that
  day; any other string is left to the engine. \<open>None\<close> is the invalid date, whose time
  value is NaN.
\<close>

definition DaysInMonth :: "int \<Rightarrow> int \<Rightarrow> int" where
  "DaysInMonth y m =
     (if m = 2 then DaysInYear y - 337 else if m \<in> {4, 6, 9, 11} then 30 else 31)"

definition parse_date_only :: "string \<Rightarrow> int option" where
  "parse_date_only s =
     (if length s = 10 \<and> s ! 4 = CHR ''-'' \<and> s ! 7 = CHR ''-''
         \<and> list_all DecimalDigit (take 4 s @ take 2 (drop 5 s) @ drop 8 s)
      then
        (let y = MV (take 4 s); m = MV (take 2 (drop 5 s)); d = MV (drop 8 s)
         in if 1 \<le> m \<and> m \<le> 12 \<and> 1 \<le> d \<and> d \<le> DaysInMonth y m
            then Some (MakeDate (MakeDay y (m - 1) d) 0) else None)
      else None)"

definition Date_parse :: "engine \<Rightarrow> string \<Rightarrow> int option" where
  "Date_parse eng s =
     (case parse_date_only s of Some t \<Rightarrow> Some t | None \<Rightarrow> legacy_parse eng s)"

subsection \<open>Plain objects used as dictionaries\<close>

text \<open>
  \<^verbatim>\<open>const totals = {}\<close> is an ordinary object whose prototype is \<^verbatim>\<open>Object.prototype\<close>.
  The model keeps its own properties as an association list in the order of their
  creation; the only values the component stores in it are numbers and strings.
  Reading a property that the object does not own finds what \<^verbatim>\<open>Object.prototype\<close> has
  under that name: one of its built-in functions, or, for \<^verbatim>\<open>__proto__\<close>, the accessor
  that returns the prototype itself.

  A string that the component builds by \<^verbatim>\<open>+\<close> is kept as the list of its pieces:
  literal characters, the text of a number, and the source text of the built-in
  function found under a property name. The last two are never empty; their exact
  characters are not needed.
\<close>

datatype piece = Chars string | NumberText jsnum | NativeText string

datatype primitive = Num jsnum | Str "piece list"

datatype jsval = Undefined | Prim primitive | Native string | ObjectPrototype

type_synonym jsobject = "(string \<times> primitive) list"

definition prototype_functions :: "string list" where
  "prototype_functions =
     [''constructor'', ''toString'', ''toLocaleString'', ''valueOf'', ''hasOwnProperty'',
      ''isPrototypeOf'', ''propertyIsEnumerable'', ''__defineGetter__'',
      ''__defineSetter__'', ''__lookupGetter__'', ''__lookupSetter__'']"

definition Get :: "jsobject \<Rightarrow> string \<Rightarrow> jsval" where
  "Get obj k =
     (case map_of obj k of
        Some p \<Rightarrow> Prim p
      | None \<Rightarrow>
          if k = ''__proto__'' then ObjectPrototype
          else if k \<in> set prototype_functions then Native k
          else Undefined)"

text \<open>
  Assigning a primitive: an own property keeps its place and takes the new value; the
  setter of \<^verbatim>\<open>__proto__\<close> ignores a value that is neither an object nor null; any other
  name becomes a new own property, after the existing ones.
\<close>

definition Put :: "jsobject \<Rightarrow> string \<Rightarrow> primitive \<Rightarrow> jsobject" where
  "Put obj k p =
     (if map_of obj k = None \<and> k = ''__proto__'' then obj else AList.update k p obj)"

fun ToBoolean :: "jsval \<Rightarrow> bool" where
  "ToBoolean Undefined = False"
| "ToBoolean (Prim (Num n)) = (n \<noteq> NaN \<and> n \<noteq> Finite 0)"
| "ToBoolean (Prim (Str s)) = list_ex (\<lambda>p. p \<noteq> Chars []) s"
| "ToBoolean (Native f) = True"
| "ToBoolean ObjectPrototype = True"

text \<open>
  The operator \<^verbatim>\<open>+\<close> with a number on the right: numeric addition when the left side is a
  number, and string concatenation when the left side is a string or an object (an
  object is converted to a primitive first, which gives a string for a function and
  for \<^verbatim>\<open>Object.prototype\<close>).
\<close>

fun add_number :: "jsval \<Rightarrow> jsnum \<Rightarrow> primitive" where
  "add_number Undefined n = Num NaN"
| "add_number (Prim (Num a)) n = Num (a + n)"
| "add_number (Prim (Str s)) n = Str (s @ [NumberText n])"
| "add_number (Native f) n = Str [NativeText f, NumberText n]"
| "add_number ObjectPrototype n = Str [Chars ''[object Object]'', NumberText n]"

text \<open>
  \<^verbatim>\<open>Object.entries\<close> lists the own properties: first the keys that are array indices
  (canonical decimal numerals up to \<open>2\<^sup>3\<^sup>2 - 2\<close>) in ascending numeric order, then the
  other keys in the order of their creation.
\<close>

definition is_array_index :: "string \<Rightarrow> bool" where
  "is_array_index k \<longleftrightarrow>
     k \<noteq> [] \<and> list_all DecimalDigit k \<and> (k = ''0'' \<or> hd k \<noteq> CHR ''0'') \<and> MV k \<le> 4294967294"

definition Object_entries :: "jsobject \<Rightarrow> (string \<times> primitive) list" where
  "Object_entries obj =
     sort_key (\<lambda>(k, v). MV k) (filter (\<lambda>(k, v). is_array_index k) obj)
     @ filter (\<lambda>(k, v). \<not> is_array_index k) obj"

subsection \<open>The table and the state of the screen\<close>

record expense =
  id_row :: int
  amount :: jsnum
  category :: string
  note_row :: "string option"
  date :: string

text \<open>
  The table \<^verbatim>\<open>expenses\<close>, with the largest row id ever given out (the key is declared
  \<^verbatim>\<open>AUTOINCREMENT\<close>). The three statements the component runs, and its one query.
\<close>

record database =
  rows :: "expense list"
  last_rowid :: int

definition INSERT :: "jsnum \<Rightarrow> string \<Rightarrow> string option \<Rightarrow> string \<Rightarrow> database \<Rightarrow> database" where
  "INSERT a c n d tbl =
     (let i = fold max (map id_row (rows tbl)) (last_rowid tbl) + 1
      in tbl\<lparr>rows := rows tbl @ [\<lparr>id_row = i, amount = a, category = c, note_row = n, date = d\<rparr>],
             last_rowid := i\<rparr>)"

definition UPDATE :: "jsnum \<Rightarrow> string \<Rightarrow> string option \<Rightarrow> string \<Rightarrow> int \<Rightarrow> database \<Rightarrow> database" where
  "UPDATE a c n d i tbl =
     tbl\<lparr>rows := map (\<lambda>r. if id_row r = i
                           then r\<lparr>amount := a, category := c, note_row := n, date := d\<rparr>
                           else r) (rows tbl)\<rparr>"

definition DELETE :: "int \<Rightarrow> database \<Rightarrow> database" where
  "DELETE i tbl = tbl\<lparr>rows := filter (\<lambda>r. id_row r \<noteq> i) (rows tbl)\<rparr>"

text \<open>\<^verbatim>\<open>ORDER BY date DESC, id DESC\<close>: text compares code unit by code unit.\<close>

definition ordered_before :: "expense \<Rightarrow> expense \<Rightarrow> bool" where
  "ordered_before r s \<longleftrightarrow> date s < date r \<or> (date r = date s \<and> id_row s \<le> id_row r)"

fun insert_row :: "expense \<Rightarrow> expense list \<Rightarrow> expense list" where
  "insert_row r [] = [r]"
| "insert_row r (s # ss) = (if ordered_before r s then r # s # ss else s # insert_row r ss)"

definition SELECT_ALL :: "database \<Rightarrow> expense list" where
  "SELECT_ALL tbl = foldr insert_row (rows tbl) []"

text \<open>
  The state a handler can touch: the table, the rows loaded from it, the fields of the
  add form, the filter, and the fields of the edit dialog.
\<close>

record app =
  db :: database
  expenses :: "expense list"
  amount_st :: string
  category_st :: string
  note_st :: string
  filter_st :: string
  editingExpense :: "expense option"
  editAmount :: string
  editCategory :: string
  editNote :: string
  editDate :: string

subsection \<open>The handlers\<close>

text \<open>
  A handler returns the alerts it showed and the state it leaves. \<open>now\<close> is the time
  value that \<^verbatim>\<open>new Date()\<close> gives. \<open>or_null s\<close> is \<^verbatim>\<open>s || null\<close> and \<open>or_else s d\<close> is
  \<^verbatim>\<open>s || d\<close>, for strings \<open>s\<close> and \<open>d\<close>: the empty string is the only one that is falsy.
\<close>

definition or_null :: "string \<Rightarrow> string option" where
  "or_null s = (if s = [] then None else Some s)"

definition or_else :: "string \<Rightarrow> string \<Rightarrow> string" where
  "or_else s d = (if s = [] then d else s)"

definition loadExpenses :: "app \<Rightarrow> app" where
  "loadExpenses st = st\<lparr>expenses := SELECT_ALL (db st)\<rparr>"

definition addExpense :: "int \<Rightarrow> app \<Rightarrow> string list \<times> app" where
  "addExpense now st =
     (let amountNumber = parseFloat (amount_st st)
      in if isNaN amountNumber \<or> js_le amountNumber 0
         then ([''Amount must be a positive number.''], st)
         else
           (let trimmedCategory = trim (category_st st);
                trimmedNote = trim (note_st st)
            in if trimmedCategory = [] then ([''Category is required.''], st)
               else
                 (let today = take 10 (toISOString now);
                      st1 = st\<lparr>db := INSERT amountNumber trimmedCategory (or_null trimmedNote)
                                         today (db st)\<rparr>;
                      st2 = st1\<lparr>amount_st := [], category_st := [], note_st := []\<rparr>
                  in ([], loadExpenses st2))))"

definition deleteExpense :: "int \<Rightarrow> app \<Rightarrow> string list \<times> app" where
  "deleteExpense i st = ([], loadExpenses (st\<lparr>db := DELETE i (db st)\<rparr>))"

definition saveEdit :: "app \<Rightarrow> string list \<times> app" where
  "saveEdit st =
     (case editingExpense st of
        None \<Rightarrow> ([], st)
      | Some editing \<Rightarrow>
          (let amountNumber = parseFloat (editAmount st)
           in if isNaN amountNumber \<or> js_le amountNumber 0
              then ([''Amount must be a positive number.''], st)
              else
                (let trimmedCategory = trim (editCategory st);
                     trimmedNote = trim (editNote st);
                     trimmedDate = trim (editDate st)
                 in if trimmedCategory = [] then ([''Category is required.''], st)
                    else if trimmedDate = [] then ([''Date is required (YYYY-MM-DD).''], st)
                    else
                      (let st1 = st\<lparr>db := UPDATE amountNumber trimmedCategory
                                              (or_null trimmedNote) trimmedDate
                                              (id_row editing) (db st)\<rparr>;
                           st2 = st1\<lparr>editingExpense := None\<rparr>
                       in ([], loadExpenses st2)))))"

subsection \<open>The filter\<close>

text \<open>
  The memo and its helper each read the clock with \<^verbatim>\<open>new Date()\<close>; the two reads are taken
  to give the same time value \<open>now\<close>.
\<close>

definition getStartOfWeek :: "engine \<Rightarrow> int \<Rightarrow> int" where
  "getStartOfWeek eng now =
     (let today = now;
          d = Date_ymd eng (getFullYear eng today) (getMonth eng today) (getDate eng today);
          dayOfWeek = getDay eng d;
          diffToMonday = (dayOfWeek + 6) mod 7
      in setDate eng d (getDate eng d - diffToMonday))"

definition getStartOfMonth :: "engine \<Rightarrow> int \<Rightarrow> int" where
  "getStartOfMonth eng now =
     (let today = now in Date_ymd eng (getFullYear eng today) (getMonth eng today) 1)"

text \<open>
  \<^verbatim>\<open>d >= start && d <= today\<close> on the time values of three dates, the first of which may
  be the invalid date; comparing with NaN is false.
\<close>

definition between :: "int option \<Rightarrow> int \<Rightarrow> int \<Rightarrow> bool" where
  "between d start today = (case d of None \<Rightarrow> False | Some t \<Rightarrow> start \<le> t \<and> t \<le> today)"

definition filteredExpenses :: "engine \<Rightarrow> int \<Rightarrow> string \<Rightarrow> expense list \<Rightarrow> expense list" where
  "filteredExpenses eng now flt exps =
     (if flt = ''all'' then exps
      else
        (let today = now
         in if flt = ''week'' then
              (let startOfWeek = getStartOfWeek eng now
               in filter (\<lambda>e. let d = Date_parse eng (date e)
                               in between d startOfWeek today) exps)
            else if flt = ''month'' then
              (let startOfMonth = getStartOfMonth eng now
               in filter (\<lambda>e. let d = Date_parse eng (date e)
                               in between d startOfMonth today) exps)
            else exps))"

subsection \<open>Totals and chart data\<close>

definition totalSpending :: "expense list \<Rightarrow> jsnum" where
  "totalSpending filtered = foldl (\<lambda>sum e. sum + Number (amount e)) 0 filtered"

text \<open>
  The key a row is counted under, \<^verbatim>\<open>e.category || 'Other'\<close>; then one turn of the loop
  over the filtered rows, and the loop.
\<close>

definition bucket_key :: "expense \<Rightarrow> string" where
  "bucket_key e = or_else (category e) ''Other''"

definition totals_step :: "jsobject \<Rightarrow> expense \<Rightarrow> jsobject" where
  "totals_step totals e =
     (let cat = bucket_key e;
          totals1 = (if \<not> ToBoolean (Get totals cat) then Put totals cat (Num 0) else totals)
      in Put totals1 cat (add_number (Get totals1 cat) (Number (amount e))))"

definition totalsByCategory :: "expense list \<Rightarrow> jsobject" where
  "totalsByCategory filtered = foldl totals_step [] filtered"

record segment =
  name :: string
  population :: primitive
  color :: string
  legendFontColor :: string
  legendFontSize :: nat

definition colors :: "string list" where
  "colors = [''#fbbf24'', ''#3b82f6'', ''#10b981'', ''#f97316'', ''#a855f7'']"

definition pieChartData :: "jsobject \<Rightarrow> segment list" where
  "pieChartData totals =
     (let entries = Object_entries totals
      in if length entries = 0 then []
         else map (\<lambda>((cat, total), index).
                     \<lparr>name = cat, population = total,
                      color = colors ! (index mod length colors),
                      legendFontColor = ''#e5e7eb'', legendFontSize = 12\<rparr>)
                  (zip entries [0..<length entries]))"

subsection \<open>What the specification says, in its own words\<close>

text \<open>
  The record invariants of the specification that a handler can decide: the amount is
  above zero, the category is not empty after trimming, and the date is present.
\<close>

definition valid_row :: "expense \<Rightarrow> bool" where
  "valid_row r \<longleftrightarrow> js_lt 0 (amount r) \<and> trim (category r) \<noteq> [] \<and> date r \<noteq> []"

text \<open>The categories of a list of rows in the order in which each is first seen.\<close>

definition first_seen :: "string list \<Rightarrow> string list" where
  "first_seen cs = foldl (\<lambda>seen c. if c \<in> set seen then seen else seen @ [c]) [] cs"

text \<open>
  The sum of a list of numbers: since the addition of doubles is not associative, the
  numbers are added one after the other in the order of the list, the last one last.
  \<open>sum_reversed\<close> is that sum for a list given last number first.
\<close>

primrec sum_reversed :: "jsnum list \<Rightarrow> jsnum" where
  "sum_reversed [] = 0"
| "sum_reversed (a # as) = sum_reversed as + a"

definition sum_in_order :: "jsnum list \<Rightarrow> jsnum" where
  "sum_in_order as = sum_reversed (rev as)"

text \<open>
  The sum of the amounts of the rows counted under a key: what the specification says a
  bucket holds.
\<close>

definition bucket_sum :: "string \<Rightarrow> expense list \<Rightarrow> jsnum" where
  "bucket_sum k xs = sum_in_order (map amount (filter (\<lambda>e. bucket_key e = k) xs))"

subsection \<open>Notions used in the proofs\<close>

text \<open>
  A key that \<^verbatim>\<open>Object.prototype\<close> has no property for; the number an object holds under a
  key, 0 when it holds none; an object all of whose values are numbers that are not
  below zero (and not NaN).
\<close>

definition plain_key :: "string \<Rightarrow> bool" where
  "plain_key k \<longleftrightarrow> k \<notin> set prototype_functions \<and> k \<noteq> ''__proto__''"

definition number_under :: "jsobject \<Rightarrow> string \<Rightarrow> jsnum" where
  "number_under obj k = (case map_of obj k of Some (Num n) \<Rightarrow> n | _ \<Rightarrow> 0)"

definition numbers_from_zero :: "jsobject \<Rightarrow> bool" where
  "numbers_from_zero obj \<longleftrightarrow>
     list_all (\<lambda>(k, v). case v of Num n \<Rightarrow> js_le 0 n | Str s \<Rightarrow> False) obj"

subsection \<open>Concrete inputs\<close>

text \<open>
  An engine in a zone that is five hours behind UTC all year (Bogota, Lima, Panama) and
  that parses no other date format, a row, and a state of the screen with a filled add
  form and an open edit dialog.
\<close>

definition five_hours_behind :: engine where
  "five_hours_behind =
     \<lparr>LocalTZA = (\<lambda>t isUTC. - 18000000), legacy_parse = (\<lambda>s. None)\<rparr>"

definition row :: "int \<Rightarrow> real \<Rightarrow> string \<Rightarrow> string \<Rightarrow> expense" where
  "row i a c d = \<lparr>id_row = i, amount = Finite a, category = c, note_row = None, date = d\<rparr>"

definition sample_app :: app where
  "sample_app =
     \<lparr>db = \<lparr>rows = [row 1 10 ''Food'' ''2024-01-01'', row 2 20 ''Food'' ''2024-01-10''],
            last_rowid = 5\<rparr>,
      expenses = [row 2 20 ''Food'' ''2024-01-10'', row 1 10 ''Food'' ''2024-01-01''],
      amount_st = ''12.50'', category_st = '' Books '', note_st = ''  '',
      filter_st = ''all'',
      editingExpense = Some (row 2 20 ''Food'' ''2024-01-10''),
      editAmount = ''7'', editCategory = ''Rent'', editNote = '' paid '',
      editDate = ''2024-02-02''\<rparr>"

text \<open>
  The same state with an amount that is not a number in the add form and a blank date
  in the edit dialog, and with an amount that is too small for a double in both; the
  rows of the first scenario of the specification, newest first as the query returns
  them, and the totals the specification gives for them.
\<close>

definition rejected_app :: app where
  "rejected_app = sample_app\<lparr>amount_st := ''abc'', editDate := ''   ''\<rparr>"

definition underflow_app :: app where
  "underflow_app = sample_app\<lparr>amount_st := ''1e-400'', editAmount := ''1e-400''\<rparr>"

definition scenario_rows :: "expense list" where
  "scenario_rows =
     [row 3 5 ''Books'' ''2024-01-15'', row 2 20 ''Food'' ''2024-01-10'',
      row 1 10 ''Food'' ''2024-01-01'']"

definition scenario_totals :: jsobject where
  "scenario_totals = [(''Books'', Num (Finite 5)), (''Food'', Num (Finite 30))]"






section \<open>Properties\<close>

subsection \<open>Auxiliary facts\<close>

text \<open>Adding up from the front, as \<^verbatim>\<open>reduce\<close> does, is the sum in the order of the list.\<close>

lemma sum_in_order_foldl: "sum_in_order as = foldl (+) 0 as"
  by (induction as rule: rev_induct) (simp_all add: sum_in_order_def)

lemma foldl_amounts:
  "foldl (\<lambda>sum e. sum + Number (amount e)) a xs = foldl (+) a (map amount xs)"
  by (induction xs arbitrary: a) (simp_all add: Number_def)

text \<open>Trimming a trimmed string changes nothing.\<close>

text \<open>
  What the rounding does at the two ends of the range of doubles: \<open>pow\<close> is the power,
  \<open>exponent\<close> brackets a positive real between two neighbouring powers of two, a real
  other than 0 below half the smallest double rounds to 0, and a real from \<open>2\<^sup>1\<^sup>0\<^sup>2\<^sup>4\<close> on
  rounds to an infinity.
\<close>

lemma bit_length_bounds:
  "0 < n \<Longrightarrow> 1 \<le> bit_length n \<and> 2 ^ nat (bit_length n - 1) \<le> n \<and> n < 2 ^ nat (bit_length n)"
proof (induction n rule: bit_length.induct)
  case (1 n)
  show ?case
  proof (cases "n = 1")
    case True
    then show ?thesis
      by (simp add: bit_length.simps [of 1] bit_length.simps [of 0])
  next
    case False
    with "1.prems" have h: "0 < n div 2"
      by simp
    with "1.IH" "1.prems" have ih: "1 \<le> bit_length (n div 2)"
      "2 ^ nat (bit_length (n div 2) - 1) \<le> n div 2" "n div 2 < 2 ^ nat (bit_length (n div 2))"
      by simp_all
    have b: "bit_length n = 1 + bit_length (n div 2)"
      using "1.prems" by (subst bit_length.simps) simp
    have p: "(2::int) ^ nat (bit_length (n div 2)) = 2 * 2 ^ nat (bit_length (n div 2) - 1)"
      using ih(1) by (metis add.commute diff_add_cancel nat_add_distrib power_Suc
          Suc_nat_eq_nat_zadd1 zero_le_one diff_ge_0_iff_ge nat_1 plus_1_eq_Suc)
    have "2 * (n div 2) \<le> n" "n < 2 * (n div 2) + 2"
      by simp_all
    with ih b p show ?thesis
      by (simp add: nat_add_distrib)
  qed
qed

lemma pow_powi: "b \<noteq> 0 \<Longrightarrow> pow b k = b powi k"
proof (induction b k rule: pow.induct)
  case (1 b k)
  consider "k < 0" | "k = 0" | "0 < k" "even k" | "0 < k" "odd k"
    by linarith
  then show ?case
  proof cases
    case 1
    with "1.IH"(1) "1.prems" have "pow b k = 1 / b powi (- k)"
      by (subst pow.simps) simp
    then show ?thesis
      by (simp add: power_int_minus_divide)
  next
    case 2
    then show ?thesis
      by (subst pow.simps) simp
  next
    case 3
    with "1.IH"(2) "1.prems" have "pow b k = b powi (k div 2) * b powi (k div 2)"
      by (subst pow.simps) simp
    also have "\<dots> = b powi (k div 2 + k div 2)"
      using "1.prems" by (subst power_int_add) simp_all
    also have "k div 2 + k div 2 = k"
      using 3(2) by auto
    finally show ?thesis .
  next
    case 4
    have "\<not> k < 0" "k \<noteq> 0" "\<not> even k"
      using 4 by simp_all
    from "1.IH"(4) [OF this "1.prems"] have "pow b (k - 1) = b powi (k - 1)" .
    with 4 have "pow b k = b * b powi (k - 1)"
      by (subst pow.simps) simp
    also have "\<dots> = b powi (k - 1 + 1)"
      using "1.prems" by (subst power_int_add_1') simp_all
    finally show ?thesis
      by simp
  qed
qed

lemma exponent_bounds:
  assumes "0 < a"
  shows "2 powi (exponent a) \<le> a \<and> a < 2 powi (exponent a + 1)"
proof (cases "1 \<le> a")
  case True
  define n where "n = \<lfloor>a\<rfloor>"
  have n: "0 < n" "of_int n \<le> a" "a < of_int n + 1"
    using True by (simp_all add: n_def)
  from bit_length_bounds [OF n(1)] have b: "1 \<le> bit_length n"
    "2 ^ nat (bit_length n - 1) \<le> n" "n < 2 ^ nat (bit_length n)"
    by simp_all
  have e: "exponent a = bit_length n - 1"
    using True by (simp add: exponent_def n_def)
  have lo: "(2::real) powi (bit_length n - 1) = of_int (2 ^ nat (bit_length n - 1))"
    using b(1) by (simp add: power_int_def)
  have hi: "(2::real) powi (bit_length n - 1 + 1) = of_int (2 ^ nat (bit_length n))"
    using b(1) by (simp add: power_int_def)
  have "of_int n + 1 \<le> (of_int (2 ^ nat (bit_length n)) :: real)"
    using b(3) by (metis of_int_1 of_int_add of_int_le_iff zless_imp_add1_zle)
  with n b(2) show ?thesis
    unfolding e lo hi by (smt (verit) of_int_le_iff)
next
  case False
  define y where "y = 1 / a"
  define c where "c = \<lceil>y\<rceil>"
  have y: "1 < y" "0 < y" "a = 1 / y"
    using False assms by (simp_all add: y_def)
  have c: "y \<le> of_int c" "of_int c - 1 < y"
    by (simp_all add: c_def) linarith
  have c1: "0 < c - 1"
    using y(1) c(1) by linarith
  from bit_length_bounds [OF c1] have b: "1 \<le> bit_length (c - 1)"
    "2 ^ nat (bit_length (c - 1) - 1) \<le> c - 1" "c - 1 < 2 ^ nat (bit_length (c - 1))"
    by simp_all
  define k where "k = bit_length (c - 1)"
  have e: "exponent a = - k"
    using False by (simp add: exponent_def y_def c_def k_def)
  have up: "y \<le> 2 ^ nat k"
  proof -
    have "c \<le> 2 ^ nat k"
      using b(3) by (simp add: k_def)
    then have "(of_int c :: real) \<le> of_int (2 ^ nat k)"
      by (rule iffD2 [OF of_int_le_iff])
    then have "(of_int c :: real) \<le> 2 ^ nat k"
      by simp
    with c(1) show ?thesis by (rule order_trans)
  qed
  have dn: "2 ^ nat (k - 1) < y"
  proof -
    have "2 ^ nat (k - 1) \<le> c - 1"
      using b(2) by (simp add: k_def)
    then have "(of_int (2 ^ nat (k - 1)) :: real) \<le> of_int (c - 1)"
      by (rule iffD2 [OF of_int_le_iff])
    then have "(2 ^ nat (k - 1) :: real) \<le> of_int c - 1"
      by simp
    with c(2) show ?thesis by linarith
  qed
  have k1: "1 \<le> k"
    using b(1) by (simp add: k_def)
  have lo: "(2::real) powi (- k) = 1 / 2 ^ nat k"
    using k1 by (simp add: power_int_def field_simps)
  have hi: "(2::real) powi (- k + 1) = 1 / 2 ^ nat (k - 1)"
    using k1 by (cases "k = 1") (simp_all add: power_int_def field_simps nat_diff_distrib')
  have "1 / 2 ^ nat k \<le> 1 / y"
    using up y(2) by (simp add: frac_le)
  moreover have "1 / y < 1 / 2 ^ nat (k - 1)"
    using dn by (simp add: frac_less2)
  ultimately have "2 powi (- k) \<le> a" "a < 2 powi (- k + 1)"
    unfolding lo hi y(3) by simp_all
  then show ?thesis
    unfolding e by simp
qed


lemma Number_value_underflow:
  assumes "x \<noteq> 0" and small: "\<bar>x\<bar> * 2 ^ 1075 < 1"
  shows "Number_value x = Finite 0"
proof -
  define a where "a = \<bar>x\<bar>"
  have a: "0 < a"
    using assms(1) by (simp add: a_def)
  have p: "(2::real) powi (- 1075) = 1 / 2 ^ 1075" "(2::real) powi (- 1074) = 1 / 2 ^ 1074"
    by (simp_all add: power_int_def field_simps)
  have lt: "a < 2 powi (- 1075)"
    using small unfolding p a_def by (simp add: field_simps)
  have ex: "exponent a < - 1075"
  proof (rule ccontr)
    assume "\<not> exponent a < - 1075"
    then have "(2::real) powi (- 1075) \<le> 2 powi exponent a"
      by (intro power_int_increasing) simp_all
    with exponent_bounds [OF a] lt show False
      by linarith
  qed
  then have e: "max (exponent a) (- 1022) = - 1022"
    by simp
  have q: "pow 2 (- 1074) = 1 / 2 ^ 1074"
    using pow_powi [of 2 "- 1074"] p(2) by simp
  define y where "y = a / pow 2 (- 1074)"
  have y: "0 \<le> y" "y < 1 / 2"
    using a small unfolding y_def a_def q
    by (simp_all add: field_simps)
  then have "\<lfloor>y\<rfloor> = 0"
    by (simp add: floor_eq_iff)
  with y have r: "round_half_even y = 0"
    by (simp add: round_half_even_def Let_def)
  show ?thesis
  proof (cases "x < 0")
    case True
    with assms(1) e r show ?thesis
      unfolding y_def a_def by (simp add: Number_value_def Let_def)
  next
    case False
    with assms(1) e r show ?thesis
      unfolding y_def a_def by (simp add: Number_value_def Let_def)
  qed
qed

lemma Number_value_overflow:
  assumes "2 ^ 1024 \<le> \<bar>x\<bar>"
  shows "Number_value x = (if x < 0 then NegInfinity else PosInfinity)"
proof -
  define a where "a = \<bar>x\<bar>"
  have p: "(2::real) powi 1024 = 2 ^ 1024"
    by (simp add: power_int_def)
  have big: "2 powi 1024 \<le> a"
    using assms unfolding p a_def .
  then have a: "0 < a"
    unfolding p by (rule less_le_trans [rotated]) simp
  have ex: "1024 \<le> exponent a"
  proof (rule ccontr)
    assume "\<not> 1024 \<le> exponent a"
    then have "(2::real) powi (exponent a + 1) \<le> 2 powi 1024"
      by (intro power_int_increasing) simp_all
    with exponent_bounds [OF a] big show False
      by linarith
  qed
  have "x \<noteq> 0"
    using a by (auto simp: a_def)
  show ?thesis
  proof (cases "x < 0")
    case True
    with \<open>x \<noteq> 0\<close> ex show ?thesis
      unfolding a_def by (simp add: Number_value_def Let_def)
  next
    case False
    with \<open>x \<noteq> 0\<close> ex show ?thesis
      unfolding a_def by (simp add: Number_value_def Let_def)
  qed
qed

lemma parseFloat_underflow: "parseFloat ''1e-400'' = Finite 0"
proof -
  have t: "trimStart ''1e-400'' = ''1e-400''"
    by code_simp
  have s: "StrUnsignedDecimalLiteral ''1e-400'' = Some (scale10 1 (- 400))"
    by code_simp
  have v: "scale10 1 (- 400) = 1 / 10 ^ 400"
    by (simp add: scale10_def pow_powi power_int_def field_simps)
  have "Number_value (1 / 10 ^ 400) = Finite 0"
    by (rule Number_value_underflow) simp_all
  then show ?thesis
    by (simp add: parseFloat_def t s v)
qed

lemma parseFloat_overflow:
  "parseFloat ''1e400'' = PosInfinity \<and> parseFloat ''-1e400'' = NegInfinity"
proof -
  have t: "trimStart ''1e400'' = ''1e400''" "trimStart ''-1e400'' = ''-1e400''"
    by code_simp+
  have s: "StrUnsignedDecimalLiteral ''1e400'' = Some (scale10 1 400)"
    by code_simp
  have v: "scale10 1 400 = 10 ^ 400"
    by (simp add: scale10_def pow_powi power_int_def)
  have "Number_value (10 ^ 400) = PosInfinity" "Number_value (- (10 ^ 400)) = NegInfinity"
    by (subst Number_value_overflow; simp)+
  then show ?thesis
    by (simp add: parseFloat_def t s v)
qed

lemma trim_fixed: "trim (trim s) = trim s"
proof -
  define t where "t = dropWhile WhiteSpace s"
  define u where "u = trim s"
  have rev_u: "rev u = dropWhile WhiteSpace (rev t)"
    by (simp add: u_def t_def trim_def)
  have tail_fixed: "dropWhile WhiteSpace (rev u) = rev u"
    by (simp add: rev_u)
  have front: "dropWhile WhiteSpace u = u"
  proof (cases "u = []")
    case True
    then show ?thesis by simp
  next
    case False
    then have ne: "dropWhile WhiteSpace (rev t) \<noteq> []"
      using rev_u by (metis rev_is_Nil_conv)
    then have tne: "t \<noteq> []" by auto
    have "hd u = last (rev u)"
      using False by (simp add: last_rev)
    also have "\<dots> = last (rev t)"
      using ne unfolding rev_u by (metis dropWhile_eq_Nil_conv dropWhile_last)
    also have "\<dots> = hd t"
      using tne by (simp add: last_rev)
    finally have "\<not> WhiteSpace (hd u)"
      using tne hd_dropWhile [of WhiteSpace s] by (simp add: t_def)
    with False show ?thesis
      by (cases u) simp_all
  qed
  have "trim u = rev (dropWhile WhiteSpace (rev u))"
    by (simp add: trim_def front)
  also have "\<dots> = u"
    by (simp add: tail_fixed)
  finally show ?thesis
    unfolding u_def .
qed

lemma positive_amount: "\<not> isNaN a \<Longrightarrow> \<not> js_le a 0 \<Longrightarrow> js_lt 0 a"
  by (auto simp: js_le_def isNaN_def zero_jsnum_def)

lemma toISOString_nonempty: "toISOString now \<noteq> []"
  by (simp add: toISOString_def Let_def)

text \<open>What the two handlers do to the table.\<close>

lemma add_rows:
  "rows (db (snd (addExpense now st))) = rows (db st) \<or>
   (\<exists>i. rows (db (snd (addExpense now st))) =
          rows (db st) @ [\<lparr>id_row = i, amount = parseFloat (amount_st st),
                            category = trim (category_st st),
                            note_row = or_null (trim (note_st st)),
                            date = take 10 (toISOString now)\<rparr>]
      \<and> \<not> (isNaN (parseFloat (amount_st st)) \<or> js_le (parseFloat (amount_st st)) 0)
      \<and> trim (category_st st) \<noteq> [])"
  by (auto simp: addExpense_def Let_def loadExpenses_def INSERT_def)

lemma edit_rows:
  "editingExpense st = Some e \<Longrightarrow>
   rows (db (snd (saveEdit st))) = rows (db st) \<or>
   (rows (db (snd (saveEdit st))) =
      map (\<lambda>r. if id_row r = id_row e
               then r\<lparr>amount := parseFloat (editAmount st), category := trim (editCategory st),
                      note_row := or_null (trim (editNote st)), date := trim (editDate st)\<rparr>
               else r) (rows (db st))
    \<and> \<not> (isNaN (parseFloat (editAmount st)) \<or> js_le (parseFloat (editAmount st)) 0)
    \<and> trim (editCategory st) \<noteq> [] \<and> trim (editDate st) \<noteq> [])"
  by (auto simp: saveEdit_def Let_def loadExpenses_def UPDATE_def)

lemma edit_nothing_open: "editingExpense st = None \<Longrightarrow> saveEdit st = ([], st)"
  by (simp add: saveEdit_def)

text \<open>The entries of an object, and the chart data made from them.\<close>

lemma set_Object_entries: "set (Object_entries obj) = set obj"
  by (auto simp: Object_entries_def)

lemma distinct_Object_entries:
  assumes "distinct (map fst obj)"
  shows "distinct (map fst (Object_entries obj))"
proof -
  from assms have d: "distinct obj" and i: "inj_on fst (set obj)"
    by (simp_all add: distinct_map)
  have "distinct (Object_entries obj)"
    using d by (auto simp: Object_entries_def)
  moreover have "inj_on fst (set (Object_entries obj))"
    using i by (simp add: set_Object_entries)
  ultimately show ?thesis
    by (simp add: distinct_map)
qed

lemma map_zip_upt: "map (\<lambda>(x, i). f x) (zip xs [0..<length xs]) = map f xs"
proof -
  have "map (\<lambda>(x, i). f x) (zip xs [0..<length xs]) = map (f \<circ> fst) (zip xs [0..<length xs])"
    by (simp add: case_prod_unfold comp_def)
  also have "\<dots> = map f (map fst (zip xs [0..<length xs]))"
    by (simp only: map_map)
  also have "\<dots> = map f xs"
    by simp
  finally show ?thesis .
qed

lemma pieChartData_pairs:
  "map (\<lambda>s. (name s, population s)) (pieChartData totals) = Object_entries totals"
proof -
  have "map (\<lambda>s. (name s, population s)) (pieChartData totals)
      = map (\<lambda>(x, i). x) (zip (Object_entries totals) [0..<length (Object_entries totals)])"
    by (auto simp: pieChartData_def Let_def case_prod_unfold comp_def)
  then show ?thesis
    by (simp add: map_zip_upt)
qed

text \<open>The keys of the totals object, as long as no row is counted under \<^verbatim>\<open>__proto__\<close>.\<close>

lemma keys_Put:
  "k \<noteq> ''__proto__'' \<Longrightarrow>
   map fst (Put obj k p) = (if k \<in> set (map fst obj) then map fst obj else map fst obj @ [k])"
  by (simp add: Put_def update_keys del: set_map)

lemma keys_step:
  assumes "bucket_key e \<noteq> ''__proto__''"
  shows "map fst (totals_step totals e) =
     (if bucket_key e \<in> set (map fst totals) then map fst totals
      else map fst totals @ [bucket_key e])"
  using assms by (auto simp: totals_step_def Let_def keys_Put simp del: set_map)

lemma keys_foldl:
  "\<forall>e \<in> set xs. bucket_key e \<noteq> ''__proto__'' \<Longrightarrow>
   map fst (foldl totals_step acc xs) =
   foldl (\<lambda>seen c. if c \<in> set seen then seen else seen @ [c]) (map fst acc) (map bucket_key xs)"
proof (induction xs arbitrary: acc)
  case Nil
  then show ?case by simp
next
  case (Cons x xs)
  then show ?case
    by (simp add: keys_step del: set_map)
qed



lemma set_seen:
  "set (foldl (\<lambda>seen c. if c \<in> set seen then seen else seen @ [c]) acc cs) = set acc \<union> set cs"
  by (induction cs arbitrary: acc) auto

lemma entries_plain:
  assumes "\<forall>k \<in> set (map fst obj). \<not> is_array_index k"
  shows "Object_entries obj = obj"
proof -
  from assms have "filter (\<lambda>(k, v). is_array_index k) obj = []"
    by (auto simp: filter_empty_conv)
  moreover from assms have "filter (\<lambda>(k, v). \<not> is_array_index k) obj = obj"
    by (auto simp: filter_id_conv)
  ultimately show ?thesis
    by (simp add: Object_entries_def)
qed

subsection \<open>The total\<close>

text \<open>
  Claim C1. The total of the empty list is 0, and the total of any list of rows is the
  sum of the amounts of exactly those rows: the amounts added as doubles, one after the
  other in the order of the list, so that a row more at the end adds its amount to the
  total of the rows before it.
\<close>

theorem totalSpending_is_sum:
  "totalSpending [] = 0
   \<and> totalSpending filtered = sum_in_order (map amount filtered)
   \<and> totalSpending (filtered @ [e]) = totalSpending filtered + amount e"
  by (simp add: totalSpending_def foldl_amounts sum_in_order_foldl)

text \<open>
  The order matters, as it does in the code: with the amounts \<open>2\<^sup>5\<^sup>3\<close>, 1 and 1 the total is
  \<open>2\<^sup>5\<^sup>3\<close>, and with 1, 1 and \<open>2\<^sup>5\<^sup>3\<close> it is \<open>2\<^sup>5\<^sup>3 + 2\<close>.
\<close>

lemma totalSpending_rounds:
  "totalSpending [row 3 9007199254740992 ''Rent'' ''2024-01-17'',
                  row 2 1 ''Food'' ''2024-01-16'', row 1 1 ''Food'' ''2024-01-15'']
     = Finite 9007199254740992
   \<and> totalSpending [row 3 1 ''Food'' ''2024-01-17'', row 2 1 ''Food'' ''2024-01-16'',
                    row 1 9007199254740992 ''Rent'' ''2024-01-15'']
     = Finite 9007199254740994"
  by code_simp

subsection \<open>The filter\<close>

text \<open>
  Claim C3. With the filter \<^verbatim>\<open>all\<close> the filtered list is the list of loaded rows itself:
  the same rows in the same order, whatever the time and the time zone.
\<close>

theorem filter_all_unchanged: "filteredExpenses eng now ''all'' exps = exps"
  by (simp add: filteredExpenses_def)

text \<open>
  Claim C9. A filter value that is none of \<^verbatim>\<open>all\<close>, \<^verbatim>\<open>week\<close> and \<^verbatim>\<open>month\<close> gives the full list
  of loaded rows, unchanged.
\<close>

theorem unknown_filter_unchanged:
  "flt \<notin> {''all'', ''week'', ''month''} \<Longrightarrow> filteredExpenses eng now flt exps = exps"
  by (simp add: filteredExpenses_def)

theorem unknown_filter_unchanged_witness:
  "''year'' \<notin> {''all'', ''week'', ''month''}
   \<and> filteredExpenses five_hours_behind 1704121200000 ''year'' scenario_rows = scenario_rows"
proof -
  have h: "''year'' \<notin> {''all'', ''week'', ''month''}"
    by simp
  from h unknown_filter_unchanged [OF h, of five_hours_behind 1704121200000 scenario_rows]
  show ?thesis by simp
qed

text \<open>
  Claim C4 says that a row dated today is in the week and in the month. The code
  compares midnight UTC of the row's date with local midnight of the Monday, or of the
  first of the month. Five hours behind UTC, at ten in the morning of Monday 1 January
  2024 (15:00 UTC), the UTC date and the local date are both 2024-01-01, and a row of
  that date is in neither list.
\<close>

theorem today_missing_from_week_and_month:
  "take 10 (toISOString 1704121200000) = ''2024-01-01''
   \<and> getFullYear five_hours_behind 1704121200000 = 2024
   \<and> getMonth five_hours_behind 1704121200000 = 0
   \<and> getDate five_hours_behind 1704121200000 = 1
   \<and> getDay five_hours_behind 1704121200000 = 1
   \<and> filteredExpenses five_hours_behind 1704121200000 ''week''
        [row 1 5 ''Food'' ''2024-01-01''] = []
   \<and> filteredExpenses five_hours_behind 1704121200000 ''month''
        [row 1 5 ''Food'' ''2024-01-01''] = []"
  by code_simp

text \<open>
  What does hold: in a zone with one offset all year that is at or ahead of UTC, while
  the local date and the UTC date agree, the row that \<^verbatim>\<open>addExpense\<close> dates today is in
  the week and in the month (for the years 100 to 9999, which the constructor and the
  four-digit format take as they are). The proof goes through the calendar: the year found by \<open>YearFromTime\<close> is the
  year of the day, a date made from the year, month and day of a time is the day of
  that time, and the date that \<^verbatim>\<open>toISOString\<close> writes parses back to midnight UTC of the
  same day.
\<close>

lemma div_bounds: "0 < c \<Longrightarrow> c * (x div c) \<le> x \<and> x < c * (x div c) + (c::int)"
proof -
  assume c: "0 < c"
  have "x = c * (x div c) + x mod c" by simp
  moreover have "0 \<le> x mod c" "x mod c < c" using c by simp_all
  ultimately show ?thesis by linarith
qed

lemma DayFromYear_bounds:
  obtains A B C where "DayFromYear y = 365 * (y - 1970) + A - B + C"
    and "4 * A \<le> y - 1969" and "y - 1969 < 4 * A + 4"
    and "100 * B \<le> y - 1901" and "y - 1901 < 100 * B + 100"
    and "400 * C \<le> y - 1601" and "y - 1601 < 400 * C + 400"
proof
  show "DayFromYear y = 365 * (y - 1970) + (y - 1969) div 4 - (y - 1901) div 100 + (y - 1601) div 400"
    by (simp add: DayFromYear_def)
  show "4 * ((y - 1969) div 4) \<le> y - 1969" "y - 1969 < 4 * ((y - 1969) div 4) + 4"
    using div_bounds [of 4 "y - 1969"] by simp_all
  show "100 * ((y - 1901) div 100) \<le> y - 1901" "y - 1901 < 100 * ((y - 1901) div 100) + 100"
    using div_bounds [of 100 "y - 1901"] by simp_all
  show "400 * ((y - 1601) div 400) \<le> y - 1601" "y - 1601 < 400 * ((y - 1601) div 400) + 400"
    using div_bounds [of 400 "y - 1601"] by simp_all
qed

lemma year_lower:
  fixes d :: int
  defines "n \<equiv> (d * 400) div 146097"
  shows "DayFromYear (1970 + n - 1) \<le> d"
proof -
  have a: "146097 * n \<le> d * 400"
    using div_bounds [of 146097 "d * 400"] by (simp add: n_def)
  obtain A B C where "DayFromYear (1970 + n - 1) = 365 * (1970 + n - 1 - 1970) + A - B + C"
    and "4 * A \<le> 1970 + n - 1 - 1969" and "1970 + n - 1 - 1901 < 100 * B + 100"
    and "400 * C \<le> 1970 + n - 1 - 1601"
    by (rule DayFromYear_bounds [of "1970 + n - 1"])
  with a show ?thesis by simp
qed

lemma year_upper:
  fixes d :: int
  defines "n \<equiv> (d * 400) div 146097"
  shows "d < DayFromYear (1970 + n + 2)"
proof -
  have a: "d * 400 < 146097 * n + 146097"
    using div_bounds [of 146097 "d * 400"] by (simp add: n_def)
  obtain A B C where "DayFromYear (1970 + n + 2) = 365 * (1970 + n + 2 - 1970) + A - B + C"
    and "1970 + n + 2 - 1969 < 4 * A + 4" and "100 * B \<le> 1970 + n + 2 - 1901"
    and "1970 + n + 2 - 1601 < 400 * C + 400"
    by (rule DayFromYear_bounds [of "1970 + n + 2"])
  with a show ?thesis by simp
qed

lemma year_bracket:
  "DayFromYear (YearFromTime t) \<le> Day t \<and> Day t < DayFromYear (YearFromTime t + 1)"
  using year_lower [of "Day t"] year_upper [of "Day t"]
  by (simp add: YearFromTime_def Let_def algebra_simps)

lemma div_step:
  fixes x c :: int
  assumes c: "0 < c"
  shows "(x + 1) div c = (if (x + 1) mod c = 0 then x div c + 1 else x div c)"
proof -
  define q where "q = (x + 1) div c"
  define r where "r = (x + 1) mod c"
  have e: "x + 1 = c * q + r" and r: "0 \<le> r" "r < c"
    using c by (simp_all add: q_def r_def)
  show ?thesis
  proof (cases "r = 0")
    case True
    with e have x: "x = c * (q - 1) + (c - 1)"
      by (simp add: algebra_simps)
    have "x div c = q - 1"
      by (rule int_div_pos_eq [of x c "q - 1" "c - 1"]) (use x c in simp_all)
    with True show ?thesis
      by (simp add: q_def r_def)
  next
    case False
    with e r have x: "x = c * q + (r - 1)" "0 \<le> r - 1" "r - 1 < c"
      by simp_all
    have "x div c = q"
      by (rule int_div_pos_eq [of x c q "r - 1"]) (use x in simp_all)
    with False show ?thesis
      by (simp add: q_def r_def)
  qed
qed

lemma mod_shift: "(y - c * k) mod c = y mod (c::int)"
  using mod_mult_self2 [of y c "- k"] by simp

lemma DayFromYear_Suc: "DayFromYear (y + 1) = DayFromYear y + DaysInYear y"
proof -
  have a: "(y + 1 - 1969) div 4 = (y - 1969) div 4 + (if y mod 4 = 0 then 1 else 0)"
    using div_step [of 4 "y - 1969"] mod_shift [of y 4 492] by (simp add: algebra_simps)
  have b: "(y + 1 - 1901) div 100 = (y - 1901) div 100 + (if y mod 100 = 0 then 1 else 0)"
    using div_step [of 100 "y - 1901"] mod_shift [of y 100 19] by (simp add: algebra_simps)
  have c: "(y + 1 - 1601) div 400 = (y - 1601) div 400 + (if y mod 400 = 0 then 1 else 0)"
    using div_step [of 400 "y - 1601"] mod_shift [of y 400 4] by (simp add: algebra_simps)
  have d4: "y mod 4 = 0" if "y mod 100 = 0"
    using mod_mod_cancel [of 4 100 y] that by simp
  have d100: "y mod 100 = 0" if "y mod 400 = 0"
    using mod_mod_cancel [of 100 400 y] that by simp
  show ?thesis
    using d4 d100 unfolding DayFromYear_def DaysInYear_def a b c
    by auto
qed

lemma DayWithinYear_bounds:
  "0 \<le> DayWithinYear t \<and> DayWithinYear t < DaysInYear (YearFromTime t)"
  using year_bracket [of t] DayFromYear_Suc [of "YearFromTime t"]
  by (simp add: DayWithinYear_def)

lemma DaysInYear_cases: "DaysInYear y = 365 \<or> DaysInYear y = 366"
  by (simp add: DaysInYear_def)

lemma MakeDay_civil:
  "MakeDay (YearFromTime t) (MonthFromTime t) (DateFromTime t) = Day t"
proof -
  have m: "0 \<le> MonthFromTime t" "MonthFromTime t < 12"
    by (simp_all add: MonthFromTime_def Let_def)
  then have "MonthFromTime t div 12 = 0" "MonthFromTime t mod 12 = MonthFromTime t"
    by simp_all
  then have "MakeDay (YearFromTime t) (MonthFromTime t) (DateFromTime t)
      = DayFromYear (YearFromTime t) + MonthStart (YearFromTime t) (MonthFromTime t)
        + DateFromTime t - 1"
    by (simp add: MakeDay_def Let_def)
  moreover have "MonthStart (YearFromTime t) (MonthFromTime t) + DateFromTime t - 1
      = DayWithinYear t"
    by (simp add: MonthStart_def DateFromTime_def MonthFromTime_def InLeapYear_def Let_def)
  ultimately show ?thesis
    by (simp add: DayWithinYear_def)
qed

lemma DateFromTime_bounds:
  "1 \<le> DateFromTime t
   \<and> DateFromTime t \<le> DaysInMonth (YearFromTime t) (MonthFromTime t + 1)"
  using DayWithinYear_bounds [of t] DaysInYear_cases [of "YearFromTime t"]
  by (auto simp: DateFromTime_def MonthFromTime_def InLeapYear_def DaysInMonth_def Let_def)

lemma length_pad: "length (pad w n) = w"
  by (induction w arbitrary: n) simp_all

lemma digit_char:
  "DecimalDigit (char_of (48 + n mod 10 :: nat))
   \<and> digit_value (char_of (48 + n mod 10 :: nat)) = int (n mod 10)"
proof -
  have small: "n mod 10 \<le> 9"
    using mod_less_divisor [of 10 n] by linarith
  then have "(48 + n mod 10) mod 256 = 48 + n mod 10"
    by simp
  then have c: "(of_char (char_of (48 + n mod 10 :: nat)) :: nat) = 48 + n mod 10"
    by simp
  have "(of_char (char_of (48 + n mod 10 :: nat)) :: int)
      = int (of_char (char_of (48 + n mod 10 :: nat)))"
    by (simp only: of_nat_of_char)
  with c small show ?thesis
    by (simp add: DecimalDigit_def digit_value_def)
qed

lemma digits_pad: "list_all DecimalDigit (pad w n)"
  by (induction w arbitrary: n) (simp_all add: digit_char)

lemma MV_snoc: "MV (ds @ [c]) = 10 * MV ds + digit_value c"
  by (simp add: MV_def)

lemma MV_pad: "MV (pad w n) = int (n mod 10 ^ w)"
proof (induction w arbitrary: n)
  case 0
  then show ?case by (simp add: MV_def)
next
  case (Suc w)
  have "n mod (10 * 10 ^ w) = 10 * (n div 10 mod 10 ^ w) + n mod 10"
    by (simp add: mod_mult2_eq)
  with Suc show ?case
    by (simp add: MV_snoc digit_char)
qed

lemma parse_date_only_parts:
  assumes "length a = 4" "length b = 2" "length c = 2"
    and "list_all DecimalDigit a" "list_all DecimalDigit b" "list_all DecimalDigit c"
    and "1 \<le> MV b" "MV b \<le> 12" "1 \<le> MV c" "MV c \<le> DaysInMonth (MV a) (MV b)"
  shows "parse_date_only (a @ ''-'' @ b @ ''-'' @ c)
       = Some (MakeDate (MakeDay (MV a) (MV b - 1) (MV c)) 0)"
  using assms by (simp add: parse_date_only_def nth_append Let_def)

lemma today_parses:
  assumes "0 \<le> YearFromTime t" "YearFromTime t \<le> 9999"
  shows "parse_date_only (take 10 (toISOString t)) = Some (Day t * msPerDay)"
proof -
  let ?y = "YearFromTime t" and ?m = "MonthFromTime t" and ?d = "DateFromTime t"
  have m: "0 \<le> ?m" "?m < 12"
    by (simp_all add: MonthFromTime_def Let_def)
  have d: "1 \<le> ?d" "?d \<le> DaysInMonth ?y (?m + 1)"
    using DateFromTime_bounds [of t] by simp_all
  have d31: "?d \<le> 31"
    using d(2) DaysInYear_cases [of ?y] by (auto simp: DaysInMonth_def split: if_splits)
  have vy: "MV (pad 4 (nat ?y)) = ?y"
    using assms by (simp add: MV_pad)
  have vm: "MV (pad 2 (nat (?m + 1))) = ?m + 1"
    using m by (simp add: MV_pad)
  have vd: "MV (pad 2 (nat ?d)) = ?d"
    using d(1) d31 by (simp add: MV_pad)
  have "take 10 (toISOString t)
      = pad 4 (nat ?y) @ ''-'' @ pad 2 (nat (?m + 1)) @ ''-'' @ pad 2 (nat ?d)"
    using assms by (simp add: toISOString_def Let_def length_pad)
  also have "parse_date_only \<dots> = Some (MakeDate (MakeDay ?y (?m + 1 - 1) ?d) 0)"
    using parse_date_only_parts [of "pad 4 (nat ?y)" "pad 2 (nat (?m + 1))" "pad 2 (nat ?d)"]
      m d by (simp add: length_pad digits_pad vy vm vd)
  finally show ?thesis
    by (simp add: MakeDay_civil MakeDate_def)
qed

lemma Day_of_midnight: "Day (n * msPerDay) = n" "TimeWithinDay (n * msPerDay) = 0"
  by (simp_all add: Day_def TimeWithinDay_def msPerDay_def)

lemma same_day:
  assumes "Day a = Day b"
  shows "YearFromTime a = YearFromTime b" "MonthFromTime a = MonthFromTime b"
    "DateFromTime a = DateFromTime b" "WeekDay a = WeekDay b"
proof -
  show y: "YearFromTime a = YearFromTime b"
    using assms by (simp add: YearFromTime_def)
  have w: "DayWithinYear a = DayWithinYear b" and l: "InLeapYear a = InLeapYear b"
    using assms y by (simp_all add: DayWithinYear_def InLeapYear_def)
  show m: "MonthFromTime a = MonthFromTime b"
    using w l by (simp add: MonthFromTime_def)
  show "DateFromTime a = DateFromTime b"
    using w l m by (simp add: DateFromTime_def)
  show "WeekDay a = WeekDay b"
    using assms by (simp add: WeekDay_def)
qed

lemma MakeDay_shift: "MakeDay y m (d + k) = MakeDay y m d + k"
  by (simp add: MakeDay_def Let_def)

lemma local_midnight:
  assumes "\<And>t b. LocalTZA eng t b = z" and "100 \<le> YearFromTime (LocalTime eng now)"
  shows "Date_ymd eng (getFullYear eng now) (getMonth eng now) (getDate eng now)
       = Day (LocalTime eng now) * msPerDay - z"
  using assms
  by (simp add: Date_ymd_def getFullYear_def getMonth_def getDate_def MakeDay_civil
      MakeDate_def UTC_def)

lemma getStartOfWeek_value:
  assumes fixed: "\<And>t b. LocalTZA eng t b = z"
    and year: "100 \<le> YearFromTime (LocalTime eng now)"
  shows "getStartOfWeek eng now
       = (Day (LocalTime eng now) - (WeekDay (LocalTime eng now) + 6) mod 7) * msPerDay - z"
proof -
  let ?lt = "LocalTime eng now"
  let ?d = "Day ?lt * msPerDay - z"
  have l: "LocalTime eng ?d = Day ?lt * msPerDay"
    by (simp add: LocalTime_def fixed)
  have s: "Day (LocalTime eng ?d) = Day ?lt"
    by (simp add: l Day_of_midnight)
  note c = same_day [OF s]
  have "setDate eng ?d (getDate eng ?d - (getDay eng ?d + 6) mod 7)
      = UTC eng (MakeDate (MakeDay (YearFromTime ?lt) (MonthFromTime ?lt)
          (DateFromTime ?lt + (- ((WeekDay ?lt + 6) mod 7)))) 0)"
    by (simp add: setDate_def getDate_def getDay_def Let_def c) (simp add: l Day_of_midnight)
  also have "\<dots> = (Day ?lt - (WeekDay ?lt + 6) mod 7) * msPerDay - z"
    by (simp only: MakeDay_shift MakeDay_civil) (simp add: UTC_def MakeDate_def fixed)
  finally show ?thesis
    by (simp add: getStartOfWeek_def Let_def local_midnight [OF fixed year])
qed

lemma getStartOfMonth_value:
  assumes fixed: "\<And>t b. LocalTZA eng t b = z"
    and year: "100 \<le> YearFromTime (LocalTime eng now)"
  shows "getStartOfMonth eng now
       = (Day (LocalTime eng now) - (DateFromTime (LocalTime eng now) - 1)) * msPerDay - z"
proof -
  let ?lt = "LocalTime eng now"
  have "MakeDay (YearFromTime ?lt) (MonthFromTime ?lt) 1
      = MakeDay (YearFromTime ?lt) (MonthFromTime ?lt) (DateFromTime ?lt + (1 - DateFromTime ?lt))"
    by simp
  also have "\<dots> = Day ?lt + (1 - DateFromTime ?lt)"
    by (simp only: MakeDay_shift MakeDay_civil)
  finally have md: "MakeDay (YearFromTime ?lt) (MonthFromTime ?lt) 1
      = Day ?lt - (DateFromTime ?lt - 1)"
    by simp
  show ?thesis
    using year
    by (simp add: getStartOfMonth_def Date_ymd_def getFullYear_def getMonth_def UTC_def
        MakeDate_def Let_def md fixed)
qed

lemma today_in_week_and_month:
  assumes fixed: "\<And>t b. LocalTZA eng t b = z" and tz: "0 \<le> z"
    and same: "Day (now + z) = Day now"
    and yr: "100 \<le> YearFromTime now" "YearFromTime now \<le> 9999"
    and dt: "date e = take 10 (toISOString now)" and e: "e \<in> set exps"
  shows "e \<in> set (filteredExpenses eng now ''week'' exps)
       \<and> e \<in> set (filteredExpenses eng now ''month'' exps)"
proof -
  have lt: "LocalTime eng now = now + z"
    by (simp add: LocalTime_def fixed)
  have same': "Day (LocalTime eng now) = Day now"
    by (simp add: lt same)
  have p: "Date_parse eng (date e) = Some (Day now * msPerDay)"
    using yr by (simp add: Date_parse_def dt today_parses)
  have ly: "100 \<le> YearFromTime (LocalTime eng now)"
    using same_day(1) [OF same'] yr by simp
  have up: "Day now * msPerDay \<le> now"
    using div_bounds [of msPerDay now] by (simp add: Day_def msPerDay_def mult.commute)
  have "0 \<le> (WeekDay (LocalTime eng now) + 6) mod 7"
    by simp
  then have "(Day now - (WeekDay (LocalTime eng now) + 6) mod 7) * msPerDay \<le> Day now * msPerDay"
    by (simp add: msPerDay_def)
  with tz have w: "getStartOfWeek eng now \<le> Day now * msPerDay"
    by (simp add: getStartOfWeek_value [OF fixed ly] same')
  have "1 \<le> DateFromTime (LocalTime eng now)"
    using DateFromTime_bounds [of "LocalTime eng now"] by simp
  then have "(Day now - (DateFromTime (LocalTime eng now) - 1)) * msPerDay \<le> Day now * msPerDay"
    by (simp add: msPerDay_def)
  with tz have m: "getStartOfMonth eng now \<le> Day now * msPerDay"
    by (simp add: getStartOfMonth_value [OF fixed ly] same')
  from p w m up e show ?thesis
    by (simp add: filteredExpenses_def between_def Let_def)
qed

subsection \<open>Totals by category and chart data\<close>

text \<open>
  Claim C2 says that every bucket holds the sum of the amounts of its category and that
  the buckets add up to the total. The code looks the category up in a plain object,
  so a category that is the name of a property of \<^verbatim>\<open>Object.prototype\<close> finds that property
  instead of nothing. A row of 5 under \<^verbatim>\<open>__proto__\<close> is in the total and in no bucket at
  all; a row of 5 under \<^verbatim>\<open>constructor\<close> gives a bucket that holds a string, the text of
  the built-in function followed by the text of the number.
\<close>

theorem totalsByCategory_inherited_names:
  "totalSpending [row 1 5 ''__proto__'' ''2024-01-15''] = Finite 5
   \<and> Object_entries (totalsByCategory [row 1 5 ''__proto__'' ''2024-01-15'']) = []
   \<and> Object_entries (totalsByCategory [row 1 5 ''constructor'' ''2024-01-15''])
       = [(''constructor'', Str [NativeText ''constructor'', NumberText (Finite 5)])]"
  by code_simp

text \<open>
  What does hold: when no row is counted under a property name of \<^verbatim>\<open>Object.prototype\<close> and
  no amount is below zero or NaN, there is a bucket for every category and each bucket
  holds the sum of the amounts of its category. (The buckets then add up to the total
  only as far as the rounding of the two orders of addition agrees.)
\<close>

lemma pow_positive: "0 < b \<Longrightarrow> 0 < pow b k"
proof (induction b k rule: pow.induct)
  case (1 b k)
  then show ?case
    by (subst pow.simps) (auto simp: zero_less_mult_iff)
qed

lemma round_half_even_from_zero: "0 \<le> y \<Longrightarrow> 0 \<le> round_half_even y"
  by (auto simp: round_half_even_def Let_def)

lemma Number_value_from_zero: "0 \<le> x \<Longrightarrow> js_le 0 (Number_value x)"
  using pow_positive [of 2]
  by (auto simp: Number_value_def Let_def js_le_def isNaN_def zero_jsnum_def not_less
      round_half_even_from_zero less_imp_le)

lemma js_le_sum: "js_le 0 a \<Longrightarrow> js_le 0 b \<Longrightarrow> js_le 0 (a + b)"
proof (cases a; cases b)
  fix x y
  assume "js_le 0 a" "js_le 0 b" "a = Finite x" "b = Finite y"
  then show ?thesis
    using Number_value_from_zero [of "x + y"]
    by (simp add: js_le_def isNaN_def zero_jsnum_def)
qed (simp_all add: js_le_def isNaN_def zero_jsnum_def)

lemma from_zero_lookup:
  "numbers_from_zero obj \<Longrightarrow> map_of obj k = Some v \<Longrightarrow> \<exists>n. v = Num n \<and> js_le 0 n"
  by (auto simp: numbers_from_zero_def list_all_iff dest!: map_of_SomeD split: primitive.splits)

lemma from_zero_update:
  "numbers_from_zero obj \<Longrightarrow> js_le 0 n \<Longrightarrow> numbers_from_zero (AList.update k (Num n) obj)"
  by (induction obj) (auto simp: numbers_from_zero_def)

text \<open>
  One turn of the loop: a bucket that holds 0 is set to 0 again, which changes nothing,
  and then the amount is added to what the bucket holds.
\<close>

lemma step_plain:
  assumes "plain_key (bucket_key e)" and "js_le 0 (amount e)" and "numbers_from_zero obj"
  shows "map_of (totals_step obj e)
           = (map_of obj)(bucket_key e \<mapsto> Num (number_under obj (bucket_key e) + amount e))
         \<and> numbers_from_zero (totals_step obj e)"
proof (cases "map_of obj (bucket_key e)")
  case None
  have "js_le 0 (0 + amount e)"
    using assms(2) by (intro js_le_sum) (simp_all add: js_le_def isNaN_def zero_jsnum_def)
  with None assms show ?thesis
    by (simp add: totals_step_def Let_def Get_def Put_def plain_key_def number_under_def
        Number_def update_conv' from_zero_update zero_jsnum_def [symmetric])
next
  case (Some v)
  with assms(3) obtain n where v: "v = Num n" and n: "js_le 0 n"
    by (blast dest: from_zero_lookup)
  have sum: "js_le 0 (n + amount e)"
    using n assms(2) by (rule js_le_sum)
  show ?thesis
  proof (cases "n = Finite 0")
    case True
    with Some v have same: "(map_of obj)(bucket_key e \<mapsto> Num 0) = map_of obj"
      by (auto simp: zero_jsnum_def)
    have "numbers_from_zero (AList.update (bucket_key e) (Num 0) obj)"
      using assms(3) by (rule from_zero_update) (simp add: js_le_def isNaN_def zero_jsnum_def)
    with True Some v assms sum same show ?thesis
      by (simp add: totals_step_def Let_def Get_def Put_def plain_key_def number_under_def
          Number_def update_conv' from_zero_update zero_jsnum_def [symmetric])
  next
    case False
    moreover from n have "n \<noteq> NaN"
      by (auto simp: js_le_def isNaN_def)
    ultimately show ?thesis
      using Some v assms sum
      by (simp add: totals_step_def Let_def Get_def Put_def plain_key_def number_under_def
          Number_def update_conv' from_zero_update)
  qed
qed

lemma number_under_lookup:
  assumes "numbers_from_zero acc"
  shows "map_of acc k = (if k \<in> fst ` set acc then Some (Num (number_under acc k)) else None)"
proof (cases "map_of acc k")
  case None
  then show ?thesis
    by (simp add: map_of_eq_None_iff)
next
  case (Some v)
  with assms obtain n where "v = Num n"
    by (blast dest: from_zero_lookup)
  with Some show ?thesis
    by (auto simp: number_under_def dest: map_of_SomeD intro: rev_image_eqI)
qed

lemma foldl_plain:
  assumes "\<forall>e \<in> set xs. plain_key (bucket_key e) \<and> js_le 0 (amount e)"
    and "numbers_from_zero acc"
  shows "map_of (foldl totals_step acc xs) k
           = (if k \<in> fst ` set acc \<union> bucket_key ` set xs
              then Some (Num (foldl (+) (number_under acc k)
                     (map amount (filter (\<lambda>e. bucket_key e = k) xs))))
              else None)
         \<and> numbers_from_zero (foldl totals_step acc xs)"
  using assms
proof (induction xs arbitrary: acc)
  case Nil
  then show ?case
    using number_under_lookup [of acc k] by simp
next
  case (Cons e xs)
  then have s: "map_of (totals_step acc e)
           = (map_of acc)(bucket_key e \<mapsto> Num (number_under acc (bucket_key e) + amount e))"
    and p: "numbers_from_zero (totals_step acc e)"
    using step_plain [of e acc] by simp_all
  have d: "fst ` set (totals_step acc e) = insert (bucket_key e) (fst ` set acc)"
    using s by (metis dom_map_of_conv_image_fst dom_fun_upd option.simps(3))
  have n: "foldl (+) (number_under (totals_step acc e) k)
             (map amount (filter (\<lambda>e. bucket_key e = k) xs))
         = foldl (+) (number_under acc k)
             (map amount (filter (\<lambda>e. bucket_key e = k) (e # xs)))"
    by (simp add: number_under_def s)
  from Cons.IH [OF _ p] Cons.prems(1) d n show ?case
    by auto
qed

lemma distinct_Put: "distinct (map fst obj) \<Longrightarrow> distinct (map fst (Put obj k p))"
  by (simp add: Put_def distinct_update)

lemma distinct_totals_foldl:
  "distinct (map fst acc) \<Longrightarrow> distinct (map fst (foldl totals_step acc xs))"
  by (induction xs arbitrary: acc) (simp_all add: totals_step_def Let_def distinct_Put)

lemma distinct_totalsByCategory: "distinct (map fst (totalsByCategory xs))"
  by (simp add: totalsByCategory_def distinct_totals_foldl)

lemma plain_categories_totals:
  assumes "\<forall>e \<in> set xs. plain_key (bucket_key e) \<and> js_le 0 (amount e)"
  shows "Object_entries (totalsByCategory xs)
           = map (\<lambda>k. (k, Num (bucket_sum k xs))) (map fst (Object_entries (totalsByCategory xs)))
       \<and> set (map fst (Object_entries (totalsByCategory xs))) = bucket_key ` set xs"
proof -
  let ?obj = "totalsByCategory xs"
  have m: "map_of ?obj k = (if k \<in> bucket_key ` set xs then Some (Num (bucket_sum k xs)) else None)" for k
    using foldl_plain [OF assms, of "[]" k]
    by (simp add: totalsByCategory_def numbers_from_zero_def number_under_def bucket_sum_def
        sum_in_order_foldl)
  have keys: "fst ` set ?obj = bucket_key ` set xs"
  proof -
    have "dom (map_of ?obj) = bucket_key ` set xs"
      using m by (auto simp: dom_def)
    then show ?thesis
      by (simp add: dom_map_of_conv_image_fst)
  qed
  have vals: "v = Num (bucket_sum k xs)" if "(k, v) \<in> set ?obj" for k v
  proof -
    from that have "map_of ?obj k = Some v"
      using distinct_totalsByCategory [of xs] by simp
    with m [of k] show ?thesis
      by (simp split: if_splits)
  qed
  have e1: "Object_entries ?obj = map (\<lambda>k. (k, Num (bucket_sum k xs))) (map fst (Object_entries ?obj))"
  proof -
    have "\<forall>p \<in> set (Object_entries ?obj). p = (fst p, Num (bucket_sum (fst p) xs))"
      using vals by (auto simp: set_Object_entries)
    then have "map (\<lambda>p. (fst p, Num (bucket_sum (fst p) xs))) (Object_entries ?obj) = Object_entries ?obj"
      by (simp add: map_idI)
    then show ?thesis
      by (simp add: comp_def)
  qed
  have e2: "set (map fst (Object_entries ?obj)) = bucket_key ` set xs"
    using keys by (simp add: set_Object_entries)
  from e1 e2 show ?thesis
    by simp
qed

text \<open>
  Claim C5. For a mapping from categories to totals (an object, whose keys are
  distinct), the chart data has exactly one segment for each key, its value is the
  total under that key, and the chart data is empty exactly when the mapping is.
\<close>

theorem pieChartData_one_segment_per_key:
  assumes "distinct (map fst totals)"
  shows "distinct (map name (pieChartData totals))
       \<and> set (map (\<lambda>s. (name s, population s)) (pieChartData totals)) = set totals
       \<and> (pieChartData totals = [] \<longleftrightarrow> totals = [])"
proof -
  have n: "map name (pieChartData totals) = map fst (Object_entries totals)"
    using pieChartData_pairs [of totals, THEN arg_cong, of "map fst"]
    by (simp add: comp_def)
  have e: "pieChartData totals = [] \<longleftrightarrow> Object_entries totals = []"
    using pieChartData_pairs [of totals] by (metis map_is_Nil_conv)
  have "Object_entries totals = [] \<longleftrightarrow> totals = []"
    using set_Object_entries [of totals] by (metis set_empty)
  with n e show ?thesis
    using distinct_Object_entries [OF assms]
    by (simp add: pieChartData_pairs set_Object_entries del: set_map)
qed

theorem pieChartData_one_segment_per_key_witness:
  "distinct (map fst scenario_totals)
   \<and> distinct (map name (pieChartData scenario_totals))
   \<and> set (map (\<lambda>s. (name s, population s)) (pieChartData scenario_totals))
       = set scenario_totals
   \<and> pieChartData scenario_totals \<noteq> []"
proof -
  have h: "distinct (map fst scenario_totals)"
    by (simp add: scenario_totals_def)
  have "scenario_totals \<noteq> []"
    by (simp add: scenario_totals_def)
  with h pieChartData_one_segment_per_key [OF h] show ?thesis
    by simp
qed







text \<open>
  In particular the keys come in the order of first sight whenever no category is an
  array index or \<^verbatim>\<open>__proto__\<close>.
\<close>

lemma key_order_plain:
  assumes "\<forall>e \<in> set filtered. \<not> is_array_index (bucket_key e) \<and> bucket_key e \<noteq> ''__proto__''"
  shows "map fst (Object_entries (totalsByCategory filtered))
       = first_seen (map bucket_key filtered)"
proof -
  from assms have k: "map fst (totalsByCategory filtered) = first_seen (map bucket_key filtered)"
    by (simp add: totalsByCategory_def first_seen_def keys_foldl del: set_map)
  have "set (first_seen (map bucket_key filtered)) = bucket_key ` set filtered"
    by (simp add: first_seen_def set_seen)
  with assms k have "\<forall>k \<in> set (map fst (totalsByCategory filtered)). \<not> is_array_index k"
    by auto
  then show ?thesis
    using k by (simp add: entries_plain del: set_map)
qed

subsection \<open>The handlers\<close>

text \<open>
  Claim C7. When the amount of the add form does not parse to a number above zero, or
  its category is empty after trimming, adding shows an alert and leaves the table and
  the state as they were. The same holds for saving an open edit dialog, whose date
  must not be empty after trimming either.
\<close>

theorem invalid_submission_rejected:
  "(isNaN (parseFloat (amount_st st)) \<or> js_le (parseFloat (amount_st st)) 0
       \<or> trim (category_st st) = []
     \<longrightarrow> (\<exists>msg. addExpense now st = ([msg], st)))
   \<and> (editingExpense st \<noteq> None
       \<and> (isNaN (parseFloat (editAmount st)) \<or> js_le (parseFloat (editAmount st)) 0
           \<or> trim (editCategory st) = [] \<or> trim (editDate st) = [])
     \<longrightarrow> (\<exists>msg. saveEdit st = ([msg], st)))"
  by (auto simp: addExpense_def saveEdit_def Let_def)

theorem invalid_submission_rejected_witness:
  "isNaN (parseFloat (amount_st rejected_app))
   \<and> (\<exists>msg. addExpense 1704121200000 rejected_app = ([msg], rejected_app))
   \<and> editingExpense rejected_app \<noteq> None \<and> trim (editDate rejected_app) = []
   \<and> (\<exists>msg. saveEdit rejected_app = ([msg], rejected_app))
   \<and> js_le (parseFloat (amount_st underflow_app)) 0
   \<and> (\<exists>msg. addExpense 1704121200000 underflow_app = ([msg], underflow_app))
   \<and> editingExpense underflow_app \<noteq> None \<and> js_le (parseFloat (editAmount underflow_app)) 0
   \<and> (\<exists>msg. saveEdit underflow_app = ([msg], underflow_app))"
proof -
  have a: "isNaN (parseFloat (amount_st rejected_app))"
    by code_simp
  have b: "editingExpense rejected_app \<noteq> None"
    by (simp add: rejected_app_def sample_app_def)
  have c: "trim (editDate rejected_app) = []"
    by code_simp
  have p: "parseFloat ''1e-400'' = Finite 0"
    by (rule parseFloat_underflow)
  have d: "js_le (parseFloat (amount_st underflow_app)) 0"
    "js_le (parseFloat (editAmount underflow_app)) 0"
    by (simp_all add: underflow_app_def p js_le_def isNaN_def zero_jsnum_def)
  have e: "editingExpense underflow_app \<noteq> None"
    by (simp add: underflow_app_def sample_app_def)
  from a b c invalid_submission_rejected [of rejected_app 1704121200000]
    d e invalid_submission_rejected [of underflow_app 1704121200000]
  show ?thesis
    by blast
qed

text \<open>
  The amounts the handlers see are doubles: a literal too small for a double is 0 and is
  rejected (\<open>parseFloat_underflow\<close>), a literal too large is Infinity
  (\<open>parseFloat_overflow\<close>), and \<^verbatim>\<open>0.1\<close> is the double nearest to one tenth.
\<close>

lemma parseFloat_rounds:
  "parseFloat ''0.1'' = Finite (3602879701896397 / 36028797018963968)
   \<and> parseFloat ''9007199254740993'' = Finite 9007199254740992
   \<and> parseFloat ''12.50'' = Finite (25 / 2)"
  by code_simp

text \<open>
  Claim C8. Every row that is in the table after adding or after saving an edit, and
  was not there before, has an amount above zero, a category that is not empty after
  trimming, and a date. So the two handlers keep these invariants of the table.
\<close>

theorem written_rows_valid:
  "(\<forall>r \<in> set (rows (db (snd (addExpense now st)))) - set (rows (db st)). valid_row r)
   \<and> (\<forall>r \<in> set (rows (db (snd (saveEdit st)))) - set (rows (db st)). valid_row r)"
proof
  show "\<forall>r \<in> set (rows (db (snd (addExpense now st)))) - set (rows (db st)). valid_row r"
    using add_rows [of now st]
    by (auto simp: valid_row_def trim_fixed toISOString_nonempty positive_amount)
  show "\<forall>r \<in> set (rows (db (snd (saveEdit st)))) - set (rows (db st)). valid_row r"
  proof (cases "editingExpense st")
    case None
    then show ?thesis by (simp add: edit_nothing_open)
  next
    case (Some e)
    from edit_rows [OF this] show ?thesis
      by (auto simp: valid_row_def trim_fixed positive_amount split: if_splits)
  qed
qed

theorem written_rows_valid_witness:
  "row 6 (25 / 2) ''Books'' ''2024-01-01''
       \<in> set (rows (db (snd (addExpense 1704121200000 sample_app)))) - set (rows (db sample_app))
   \<and> valid_row (row 6 (25 / 2) ''Books'' ''2024-01-01'')
   \<and> (row 2 7 ''Rent'' ''2024-02-02'')\<lparr>note_row := Some ''paid''\<rparr>
       \<in> set (rows (db (snd (saveEdit sample_app)))) - set (rows (db sample_app))
   \<and> valid_row ((row 2 7 ''Rent'' ''2024-02-02'')\<lparr>note_row := Some ''paid''\<rparr>)"
proof -
  have a: "row 6 (25 / 2) ''Books'' ''2024-01-01''
       \<in> set (rows (db (snd (addExpense 1704121200000 sample_app)))) - set (rows (db sample_app))"
    by code_simp
  have b: "(row 2 7 ''Rent'' ''2024-02-02'')\<lparr>note_row := Some ''paid''\<rparr>
       \<in> set (rows (db (snd (saveEdit sample_app)))) - set (rows (db sample_app))"
    by code_simp
  from a b written_rows_valid [of 1704121200000 sample_app] show ?thesis
    by blast
qed



end
